theory Spec2Isabelle
  imports Main "HOL-Library.Word" "HOL-Library.Multiset"
begin

unbundle bit_operations_syntax

section \<open>JavaScript number operations used by \<open>hash\<close>\<close>

text \<open>
  The values that \<open>hash\<close> handles are integral JavaScript numbers far below \<open>2^53\<close>, so
  they are modelled as \<open>int\<close>. The remainder operator \<open>%\<close> truncates towards zero (the
  result has the sign of the dividend). The operators \<open><<\<close>, \<open>>>\<close> and \<open>^\<close> convert
  their operands to 32-bit integers, work on the bits, and give back a signed 32-bit
  value; \<open>>>\<close> propagates the sign bit. \<open>x >>> 0\<close> reads the 32 bits as unsigned.
\<close>

definition js_rem :: "int \<Rightarrow> int \<Rightarrow> int" where
  "js_rem a m = sgn a * (\<bar>a\<bar> mod \<bar>m\<bar>)"

definition js_shl :: "int \<Rightarrow> nat \<Rightarrow> int" where
  "js_shl x n = sint (push_bit n (word_of_int x :: 32 word))"

definition js_sar :: "int \<Rightarrow> nat \<Rightarrow> int" where
  "js_sar x n = sint (signed_drop_bit n (word_of_int x :: 32 word))"

definition js_xor :: "int \<Rightarrow> int \<Rightarrow> int" where
  "js_xor x y = sint ((word_of_int x :: 32 word) XOR word_of_int y)"

definition js_ushr0 :: "int \<Rightarrow> int" where
  "js_ushr0 x = uint (word_of_int x :: 32 word)"

section \<open>The hash of a remote address\<close>

text \<open>
  \<open>hash(ip)\<close> of \<open>awesome-cluster.js\<close>. The buffer \<open>ip\<close> is a list of bytes
  (\<open>char\<close> is a byte, \<open>of_char\<close> reads it as a number in \<open>0..255\<close>); the seed is the
  signed 32-bit value of \<open>(Math.random() * 0xffffffff) | 0\<close>. \<open>hash_round\<close> is the body
  of the \<open>for\<close> loop, \<open>hash_final\<close> the statements after it.
\<close>

definition hash_round :: "int \<Rightarrow> char \<Rightarrow> int" where
  "hash_round h0 c =
     (let h1 = h0 + of_char c;
          h2 = js_rem h1 2147483648;
          h3 = h2 + js_shl h2 10;
          h4 = js_rem h3 2147483648
      in js_xor h4 (js_sar h4 6))"

fun hash_loop :: "int \<Rightarrow> string \<Rightarrow> int" where
  "hash_loop h [] = h"
| "hash_loop h (c # cs) = hash_loop (hash_round h c) cs"

definition hash_final :: "int \<Rightarrow> int" where
  "hash_final h0 =
     (let h1 = h0 + js_shl h0 3;
          h2 = js_rem h1 2147483648;
          h3 = js_xor h2 (js_sar h2 11);
          h4 = h3 + js_shl h3 15;
          h5 = js_rem h4 2147483648
      in js_ushr0 h5)"

definition hash :: "32 word \<Rightarrow> string \<Rightarrow> int" where
  "hash sd ip = hash_final (hash_loop (sint sd) ip)"

subsection \<open>The mixer as the specification words it\<close>

text \<open>
  The mixer of the specification, read literally: shifts are logical, every addition is
  reduced modulo \<open>2^31\<close> to a non-negative value, and the result is cast to an unsigned
  32-bit value.
\<close>

definition spec_mixer_round :: "int \<Rightarrow> int \<Rightarrow> int" where
  "spec_mixer_round h0 b =
     (let h1 = (h0 + b) mod 2 ^ 31;
          h2 = (h1 + push_bit 10 h1) mod 2 ^ 31
      in h2 XOR drop_bit 6 h2)"

definition spec_mixer :: "int \<Rightarrow> int list \<Rightarrow> int" where
  "spec_mixer sd bs =
     (let h0 = foldl spec_mixer_round sd bs;
          h1 = (h0 + push_bit 3 h0) mod 2 ^ 31;
          h2 = h1 XOR drop_bit 11 h1;
          h3 = (h2 + push_bit 15 h2) mod 2 ^ 31
      in h3 mod 2 ^ 32)"

subsection \<open>The mixer with signed 32-bit shifts, in plain arithmetic\<close>

text \<open>
  The same sequence of steps, with the operators read as JavaScript reads them and
  written without machine words: \<open>wrap32\<close> is the signed 32-bit value of an integer,
  \<open>h << k\<close> is \<open>wrap32 (h * 2^k)\<close>, \<open>h >> k\<close> is the floor division \<open>h div 2^k\<close>, the
  exclusive or is that of two's complement integers, and \<open>mod 2^31\<close> is the truncated
  remainder \<open>js_rem\<close>.
\<close>

definition wrap32 :: "int \<Rightarrow> int" where
  "wrap32 x = (x + 2 ^ 31) mod 2 ^ 32 - 2 ^ 31"

definition signed_mixer_round :: "int \<Rightarrow> int \<Rightarrow> int" where
  "signed_mixer_round h0 b =
     (let h1 = js_rem (h0 + b) (2 ^ 31);
          h2 = js_rem (h1 + wrap32 (h1 * 2 ^ 10)) (2 ^ 31)
      in h2 XOR (h2 div 2 ^ 6))"

definition signed_mixer :: "int \<Rightarrow> int list \<Rightarrow> int" where
  "signed_mixer sd bs =
     (let h0 = foldl signed_mixer_round sd bs;
          h1 = js_rem (h0 + wrap32 (h0 * 2 ^ 3)) (2 ^ 31);
          h2 = h1 XOR (h1 div 2 ^ 11);
          h3 = js_rem (h2 + wrap32 (h2 * 2 ^ 15)) (2 ^ 31)
      in h3 mod 2 ^ 32)"

section \<open>Strings\<close>

text \<open>\<open>String.prototype.includes\<close>: the needle occurs somewhere in the string.\<close>

fun str_includes :: "string \<Rightarrow> string \<Rightarrow> bool" where
  "str_includes [] sub = (sub = [])"
| "str_includes (c # cs) sub = (take (length sub) (c # cs) = sub \<or> str_includes cs sub)"

text \<open>The decimal digits of a number, as the template literal prints it.\<close>

definition digit :: "nat \<Rightarrow> char" where
  "digit d = ''0123456789'' ! d"

fun string_of_nat :: "nat \<Rightarrow> string" where
  "string_of_nat n =
     (if n < 10 then [digit n]
      else string_of_nat (n div 10) @ [digit (n mod 10)])"

declare string_of_nat.simps [simp del]

section \<open>The master's state\<close>

text \<open>
  A worker handle (a \<open>ChildProcess\<close> object) is identified by the unique id that \<open>fork\<close>
  gave its process; the handles' \<open>connected\<close> flags live in a store indexed by that
  id, since a handle is shared between the routing list and the event handlers. An element
  of the array \<open>workers\<close> is a handle or, as any JavaScript array element, \<open>undefined\<close>.
\<close>

type_synonym worker_id = nat

datatype slot = Undefined | Handle worker_id

record socket =
  sock_id :: nat
  remoteAddress :: "string option"
  server :: "nat option"

text \<open>What \<open>ch.fork\<close> was called with: the child's exec arguments and its \<open>NODE_UNIQUE_ID\<close>.\<close>

record child =
  NODE_UNIQUE_ID :: nat
  child_execArgv :: "string list"

text \<open>
  The fields of the \<open>AwesomeCluster\<close> instance that the master uses, the module-level
  counters \<open>debugPortOffset\<close> and \<open>processUniqueId\<close>, and what the master reads from
  \<open>process\<close> (\<open>execArgv\<close>, \<open>debugPort\<close>). \<open>forked\<close> records the calls of \<open>ch.fork\<close>
  in order.
\<close>

record master =
  workers :: "slot list"
  connected :: "worker_id \<Rightarrow> bool"
  forked :: "child list"
  needRespawn :: bool
  isPermanentConnection :: bool
  seed :: "32 word"
  execArgv :: "string list"
  debugPort :: nat
  debugPortOffset :: nat
  processUniqueId :: nat

section \<open>Forking a worker\<close>

definition maxPort :: nat where
  "maxPort = 65535"

text \<open>
  \<open>arg.match(/--inspect(?:-brk|-port)?|--debug-port/)\<close>: the pattern is not anchored, so
  it matches when one of its alternatives occurs somewhere in the argument.
\<close>

definition inspectRegex :: "string \<Rightarrow> bool" where
  "inspectRegex arg =
     (list_ex (\<lambda>suffix. str_includes arg (''--inspect'' @ suffix)) [''-brk'', ''-port'', '''']
      \<or> str_includes arg ''--debug-port'')"

text \<open>\<open>xs.splice(i, 1)\<close>: remove the element at index \<open>i\<close>.\<close>

definition splice1 :: "nat \<Rightarrow> 'a list \<Rightarrow> 'a list" where
  "splice1 i xs = take i xs @ drop (i + 1) xs"

text \<open>
  The loop \<open>for (let i = 0; i < execArgv.length; i++)\<close> of \<open>fork\<close>, which splices out
  the element at \<open>i\<close> when it includes \<open>--inspect-brk\<close> and then goes on to \<open>i + 1\<close>.
\<close>

function strip_inspect_brk :: "nat \<Rightarrow> string list \<Rightarrow> string list" where
  "strip_inspect_brk i argv =
     (if i < length argv
      then (if str_includes (argv ! i) ''--inspect-brk''
            then strip_inspect_brk (i + 1) (splice1 i argv)
            else strip_inspect_brk (i + 1) argv)
      else argv)"
  by pat_completeness auto
termination
  by (relation "measure (\<lambda>(i, argv). length argv - i)") (auto simp: splice1_def)

declare strip_inspect_brk.simps [simp del]

definition fork :: "master \<Rightarrow> child \<times> master" where
  "fork s =
     (let uid = processUniqueId s + 1;
          s1 = s\<lparr>processUniqueId := uid\<rparr>
      in if list_ex inspectRegex (execArgv s1)
         then (let p = debugPort s1 + debugPortOffset s1;
                   inspectPort = (if p > maxPort then p - 1 else p);
                   s2 = s1\<lparr>debugPortOffset := debugPortOffset s1 + 1\<rparr>;
                   argv = strip_inspect_brk 0 (execArgv s2)
                          @ [''--inspect-brk='' @ string_of_nat inspectPort]
               in (\<lparr>NODE_UNIQUE_ID = uid, child_execArgv = argv\<rparr>, s2))
         else (\<lparr>NODE_UNIQUE_ID = uid, child_execArgv = execArgv s1\<rparr>, s1))"

section \<open>Spawning, respawning and the exit event\<close>

text \<open>
  \<open>spawnWorker\<close> forks, registers the handlers (the functions \<open>on_exit\<close> below) and pushes
  the handle. The handle that \<open>ch.fork\<close> returns has an open IPC channel.
\<close>

definition spawnWorker :: "master \<Rightarrow> master" where
  "spawnWorker s =
     (let (c, s1) = fork s;
          w = NODE_UNIQUE_ID c
      in s1\<lparr>workers := workers s1 @ [Handle w],
             connected := (connected s1)(w := True),
             forked := forked s1 @ [c]\<rparr>)"

text \<open>\<open>Array.prototype.indexOf\<close>: the first index holding the element, or \<open>-1\<close>.\<close>

fun indexOf_from :: "nat \<Rightarrow> 'a list \<Rightarrow> 'a \<Rightarrow> int" where
  "indexOf_from i [] x = - 1"
| "indexOf_from i (y # ys) x = (if y = x then int i else indexOf_from (i + 1) ys x)"

definition indexOf :: "'a list \<Rightarrow> 'a \<Rightarrow> int" where
  "indexOf xs x = indexOf_from 0 xs x"

definition respawn :: "master \<Rightarrow> worker_id \<Rightarrow> master" where
  "respawn s w =
     (let index = indexOf (workers s) (Handle w);
          s1 = (if index \<noteq> - 1 then s\<lparr>workers := splice1 (nat index) (workers s)\<rparr> else s)
      in spawnWorker s1)"

text \<open>The handler of a worker's \<open>exit\<close> event.\<close>

definition on_exit :: "master \<Rightarrow> worker_id \<Rightarrow> master" where
  "on_exit s w = (if needRespawn s then respawn s w else s)"

text \<open>
  A worker's process exits: its IPC channel is gone, so its handle reports
  \<open>connected = false\<close>, and the \<open>exit\<close> handler runs.
\<close>

definition exit_event :: "master \<Rightarrow> worker_id \<Rightarrow> master" where
  "exit_event s w = on_exit (s\<lparr>connected := (connected s)(w := False)\<rparr>) w"

text \<open>
  \<open>startCluster\<close>: an empty routing list, a seed, and \<open>workerCount\<close> calls of
  \<open>spawnWorker\<close> once the server listens. The counters start at their module-level
  initial values.
\<close>

fun spawn_workers :: "nat \<Rightarrow> master \<Rightarrow> master" where
  "spawn_workers 0 s = s"
| "spawn_workers (Suc n) s = spawn_workers n (spawnWorker s)"

definition startCluster :: "nat \<Rightarrow> bool \<Rightarrow> bool \<Rightarrow> 32 word \<Rightarrow> string list \<Rightarrow> nat \<Rightarrow> master" where
  "startCluster workerCount respawnOpt permanent sd argv dport =
     spawn_workers workerCount
       \<lparr>workers = [], connected = (\<lambda>_. False), forked = [],
        needRespawn = respawnOpt, isPermanentConnection = permanent, seed = sd,
        execArgv = argv, debugPort = dport, debugPortOffset = 1, processUniqueId = 0\<rparr>"

section \<open>The balancer\<close>

datatype js_error = TypeError | Error string | SendFailure

text \<open>What \<open>balance\<close> does to the outside: IPC sends, log lines, socket events.\<close>

datatype effect =
    Send worker_id string socket
  | LogError js_error
  | EmitClose socket
  | EndSocket socket

text \<open>\<open>Buffer.from(socket.remoteAddress || '127.0.0.1')\<close>: a missing or empty address is falsy.\<close>

definition remote_addr :: "socket \<Rightarrow> string" where
  "remote_addr sock =
     (case remoteAddress sock of
        None \<Rightarrow> ''127.0.0.1''
      | Some a \<Rightarrow> (if a = [] then ''127.0.0.1'' else a))"

text \<open>
  The choice of the worker. Sticky: \<open>this.workers[hash % this.workers.length]\<close>, which is
  \<open>undefined\<close> for an empty list (\<open>hash % 0\<close> is \<open>NaN\<close>). Round-robin:
  \<open>this.workers.shift()\<close>, which is \<open>undefined\<close> on an empty list, and a \<open>push\<close> of
  whatever was shifted.
\<close>

definition select_worker :: "master \<Rightarrow> socket \<Rightarrow> slot \<times> master" where
  "select_worker s sock =
     (let addr = remote_addr sock
      in if isPermanentConnection s
         then (let h = hash (seed s) addr
               in (if workers s = [] then Undefined
                   else workers s ! nat (js_rem h (int (length (workers s)))), s))
         else (case workers s of
                 [] \<Rightarrow> (Undefined, s\<lparr>workers := [Undefined]\<rparr>)
               | w # ws \<Rightarrow> (w, s\<lparr>workers := ws @ [w]\<rparr>)))"

text \<open>
  The body of the \<open>try\<close> block: reading \<open>connected\<close> of \<open>undefined\<close> throws a TypeError;
  a handle that is not connected makes the code throw its own error; \<open>worker.send\<close>
  may itself throw, which the environment decides (\<open>sendThrows\<close>).
\<close>

definition try_send :: "master \<Rightarrow> bool \<Rightarrow> slot \<Rightarrow> socket \<Rightarrow> js_error + effect list" where
  "try_send s sendThrows worker sock =
     (case worker of
        Undefined \<Rightarrow> Inl TypeError
      | Handle w \<Rightarrow>
          (if connected s w
           then (if sendThrows then Inl SendFailure else Inr [Send w ''balancing'' sock])
           else Inl (Error ''Can't send message to worker'')))"

definition balance :: "master \<Rightarrow> bool \<Rightarrow> socket \<Rightarrow> master \<times> effect list" where
  "balance s sendThrows sock =
     (let (worker, s1) = select_worker s sock
      in case try_send s1 sendThrows worker sock of
           Inr effs \<Rightarrow> (s1, effs)
         | Inl e \<Rightarrow> (s1, [LogError e, EmitClose sock, EndSocket sock]))"

text \<open>
  The master's \<open>connection\<close> listener called for a sequence of incoming connections, each
  with its socket and with whether \<open>worker.send\<close> throws for it.
\<close>

fun on_connections :: "master \<Rightarrow> (bool \<times> socket) list \<Rightarrow> master \<times> effect list list" where
  "on_connections s [] = (s, [])"
| "on_connections s (c # cs) =
     (let (s1, effs) = balance s (fst c) (snd c);
          (s2, rest) = on_connections s1 cs
      in (s2, effs # rest))"

section \<open>The worker's message handler\<close>

text \<open>
  A message body is a string or some other value; the handler only compares it with the
  string \<open>balancing\<close>. The transport's server has its counter \<open>_connections\<close> and the
  events emitted on it.
\<close>

datatype js_message = JString string | JObject "(string \<times> string) list"

record net_server =
  server_id :: nat
  connections :: int
  emitted :: "(string \<times> nat) list"

definition on_message :: "net_server \<Rightarrow> js_message \<Rightarrow> socket option \<Rightarrow> net_server \<times> socket option" where
  "on_message srv msg sock =
     (if msg \<noteq> JString ''balancing'' \<or> sock = None then (srv, sock)
      else (case sock of
              None \<Rightarrow> (srv, sock)
            | Some so \<Rightarrow>
                (srv\<lparr>connections := connections srv + 1,
                     emitted := emitted srv @ [(''connection'', sock_id so)]\<rparr>,
                 Some (so\<lparr>server := Some (server_id srv)\<rparr>))))"

section \<open>The master's handler of a worker's message\<close>

text \<open>
  The \<open>message\<close> handler that \<open>spawnWorker\<close> registers on a handle: a message whose
  \<open>type\<close> is \<open>close\<close> respawns the worker when \<open>needRespawn\<close> is set. A string has no
  property \<open>type\<close>.
\<close>

definition on_worker_message :: "master \<Rightarrow> worker_id \<Rightarrow> js_message \<Rightarrow> master" where
  "on_worker_message s w msg =
     (case msg of
        JString _ \<Rightarrow> s
      | JObject props \<Rightarrow>
          (if map_of props ''type'' = Some ''close''
           then (if needRespawn s then respawn s w else s)
           else s))"

section \<open>Well-formed routing lists\<close>

text \<open>
  The routing list holds handles only, each once, and every id in it has been handed out
  already; \<open>all_connected\<close> says that every handle in it reports an open channel.
\<close>

fun is_handle :: "slot \<Rightarrow> bool" where
  "is_handle Undefined = False"
| "is_handle (Handle w) = True"

fun slot_connected :: "master \<Rightarrow> slot \<Rightarrow> bool" where
  "slot_connected s Undefined = False"
| "slot_connected s (Handle w) = connected s w"

fun slot_known :: "master \<Rightarrow> slot \<Rightarrow> bool" where
  "slot_known s Undefined = False"
| "slot_known s (Handle w) = (w \<le> processUniqueId s)"

definition routing_ok :: "master \<Rightarrow> bool" where
  "routing_ok s = (distinct (workers s) \<and> list_all (slot_known s) (workers s))"

definition all_connected :: "master \<Rightarrow> bool" where
  "all_connected s = list_all (slot_connected s) (workers s)"

section \<open>Example configurations\<close>

text \<open>
  The configuration of the repository's example script: two workers, \<open>respawn: false\<close>
  and a transport with \<open>isPermanentConnection = false\<close>, started without a debugger
  flag, with seed \<open>0\<close>.
\<close>

definition example_cluster :: master where
  "example_cluster = startCluster 2 False False 0 [] 9229"

text \<open>A cluster of three workers with a sticky transport and \<open>respawn: true\<close>.\<close>

definition example_sticky_cluster :: master where
  "example_sticky_cluster = startCluster 3 True True 0 [] 9229"

text \<open>The example cluster after the process of its first worker has exited.\<close>

definition example_after_exit :: master where
  "example_after_exit = exit_event example_cluster 1"

text \<open>
  The sticky cluster after its first worker has sent \<open>{type: 'close'}\<close>, as a worker does
  when its server closes.
\<close>

definition example_after_close :: master where
  "example_after_close = on_worker_message example_sticky_cluster 1 (JObject [(''type'', ''close'')])"

definition example_socket :: "nat \<Rightarrow> string \<Rightarrow> socket" where
  "example_socket n addr = \<lparr>sock_id = n, remoteAddress = Some addr, server = None\<rparr>"

definition example_conns :: "(bool \<times> socket) list" where
  "example_conns =
     [(False, example_socket 10 ''10.0.0.7''),
      (False, example_socket 11 ''10.0.0.7''),
      (False, example_socket 12 ''10.0.0.8'')]"

section \<open>Properties of the hash\<close>

lemma js_rem_bounds: "- (2 ^ 31) < js_rem a (2 ^ 31) \<and> js_rem a (2 ^ 31) < 2 ^ 31"
proof -
  have m: "0 \<le> \<bar>a\<bar> mod (2 ^ 31 :: int) \<and> \<bar>a\<bar> mod (2 ^ 31 :: int) < 2 ^ 31"
    by simp
  show ?thesis
  proof (cases "a < 0")
    case True
    then have "js_rem a (2 ^ 31) = - (\<bar>a\<bar> mod 2 ^ 31)"
      by (simp add: js_rem_def)
    with m show ?thesis by linarith
  next
    case False
    then have "js_rem a (2 ^ 31) = \<bar>a\<bar> mod 2 ^ 31 \<or> js_rem a (2 ^ 31) = 0"
      by (cases "a = 0") (simp_all add: js_rem_def)
    with m show ?thesis by auto
  qed
qed

lemma js_rem_range: "- (2 ^ 31) \<le> js_rem a (2 ^ 31) \<and> js_rem a (2 ^ 31) < 2 ^ 31"
  using js_rem_bounds [of a] by simp

lemma sint_word_of_int_wrap32: "sint (word_of_int y :: 32 word) = wrap32 y"
  by (simp add: wrap32_def int_word_sint)

lemma js_shl_arith: "js_shl x n = wrap32 (x * 2 ^ n)"
proof -
  have b: "push_bit n (word_of_int x :: 32 word) = word_of_int (x * 2 ^ n)"
    by (simp add: push_bit_eq_mult)
  show ?thesis
    unfolding js_shl_def b by (rule sint_word_of_int_wrap32)
qed

lemma sint_in_range:
  assumes "- (2 ^ 31) \<le> x" "x < 2 ^ 31"
  shows "sint (word_of_int x :: 32 word) = x"
  using assms by (simp add: sint_sbintrunc' signed_take_bit_int_eq_self)

lemma js_sar_arith:
  assumes "- (2 ^ 31) \<le> x" "x < 2 ^ 31"
  shows "js_sar x n = x div 2 ^ n"
  using assms by (simp add: js_sar_def sint_signed_drop_bit_eq sint_in_range drop_bit_eq_div)

lemma js_xor_arith:
  assumes "- (2 ^ 31) \<le> x" "x < 2 ^ 31" "- (2 ^ 31) \<le> y" "y < 2 ^ 31"
  shows "js_xor x y = x XOR y"
  using assms by (simp add: js_xor_def signed_xor_eq sint_in_range)

lemma js_xor_range: "- (2 ^ 31) \<le> js_xor x y \<and> js_xor x y < 2 ^ 31"
  using sint_range_size [of "(word_of_int x :: 32 word) XOR word_of_int y"]
  by (simp add: js_xor_def word_size)

lemma div_pow2_range:
  fixes x :: int
  assumes "- (2 ^ 31) \<le> x" "x < 2 ^ 31"
  shows "- (2 ^ 31) \<le> x div 2 ^ n \<and> x div 2 ^ n < 2 ^ 31"
proof (cases "0 \<le> x")
  case True
  have "x div 2 ^ n \<le> x div 1"
    by (rule zdiv_mono2) (use True in simp_all)
  moreover have "0 \<le> x div 2 ^ n"
    using True by (simp add: pos_imp_zdiv_nonneg_iff)
  ultimately show ?thesis using assms by simp
next
  case False
  then have neg: "x < 0" by simp
  have "x div 1 \<le> x div 2 ^ n"
    by (rule zdiv_mono2_neg) (use neg in simp_all)
  moreover have "x div 2 ^ n < 0"
    using neg by (simp add: div_neg_pos_less0)
  ultimately show ?thesis using assms by simp
qed

lemma xor_shift_nonneg: "0 \<le> (x :: int) XOR (x div 2 ^ n)"
  by (simp add: pos_imp_zdiv_nonneg_iff)

lemma xor_shift_arith:
  assumes "- (2 ^ 31) \<le> x" "x < 2 ^ 31"
  shows "js_xor x (js_sar x n) = x XOR (x div 2 ^ n)"
proof -
  have "js_sar x n = x div 2 ^ n"
    using assms by (rule js_sar_arith)
  moreover have "js_xor x (x div 2 ^ n) = x XOR (x div 2 ^ n)"
    using assms div_pow2_range [OF assms, of n] by (intro js_xor_arith) simp_all
  ultimately show ?thesis by simp
qed

lemma hash_round_arith: "hash_round h c = signed_mixer_round h (of_char c)"
proof -
  define h2 where "h2 = js_rem (h + of_char c) (2 ^ 31)"
  define h4 where "h4 = js_rem (h2 + wrap32 (h2 * 2 ^ 10)) (2 ^ 31)"
  have "- (2 ^ 31) \<le> h4" and "h4 < 2 ^ 31"
    using js_rem_range [of "h2 + wrap32 (h2 * 2 ^ 10)"] by (simp_all add: h4_def)
  then have "js_xor h4 (js_sar h4 6) = h4 XOR (h4 div 2 ^ 6)"
    by (rule xor_shift_arith)
  then show ?thesis
    by (simp add: hash_round_def signed_mixer_round_def Let_def js_shl_arith h2_def h4_def)
qed

lemma signed_mixer_round_range:
  "0 \<le> signed_mixer_round h b \<and> signed_mixer_round h b < 2 ^ 31"
proof -
  define h1 where "h1 = js_rem (h + b) (2 ^ 31)"
  define h2 where "h2 = js_rem (h1 + wrap32 (h1 * 2 ^ 10)) (2 ^ 31)"
  have r: "- (2 ^ 31) \<le> h2" "h2 < 2 ^ 31"
    using js_rem_range [of "h1 + wrap32 (h1 * 2 ^ 10)"] by (simp_all add: h2_def)
  have eq: "signed_mixer_round h b = h2 XOR (h2 div 2 ^ 6)"
    by (simp add: signed_mixer_round_def Let_def h2_def h1_def)
  have "js_xor h2 (js_sar h2 6) = h2 XOR (h2 div 2 ^ 6)"
    using r by (rule xor_shift_arith)
  then have "h2 XOR (h2 div 2 ^ 6) < 2 ^ 31"
    using js_xor_range [of h2 "js_sar h2 6"] by simp
  then show ?thesis
    unfolding eq using xor_shift_nonneg [of h2 6] by simp
qed

lemma hash_loop_arith: "hash_loop h ip = foldl signed_mixer_round h (map of_char ip)"
  by (induction ip arbitrary: h) (simp_all add: hash_round_arith)

lemma hash_loop_range:
  assumes "ip \<noteq> []"
  shows "0 \<le> hash_loop h ip \<and> hash_loop h ip < 2 ^ 31"
proof -
  obtain cs c where ip: "ip = cs @ [c]"
    using assms by (cases ip rule: rev_cases) auto
  have "hash_loop h (cs @ [c]) = signed_mixer_round (hash_loop h cs) (of_char c)"
    by (simp add: hash_loop_arith)
  then show ?thesis
    unfolding ip using signed_mixer_round_range by simp
qed

lemma hash_final_arith:
  "hash_final h0 =
     (let h1 = js_rem (h0 + wrap32 (h0 * 2 ^ 3)) (2 ^ 31);
          h2 = h1 XOR (h1 div 2 ^ 11);
          h3 = js_rem (h2 + wrap32 (h2 * 2 ^ 15)) (2 ^ 31)
      in h3 mod 2 ^ 32)"
proof -
  define h1 where "h1 = js_rem (h0 + wrap32 (h0 * 2 ^ 3)) (2 ^ 31)"
  have "- (2 ^ 31) \<le> h1" and "h1 < 2 ^ 31"
    using js_rem_range [of "h0 + wrap32 (h0 * 2 ^ 3)"] by (simp_all add: h1_def)
  then have "js_xor h1 (js_sar h1 11) = h1 XOR (h1 div 2 ^ 11)"
    by (rule xor_shift_arith)
  then show ?thesis
    by (simp add: hash_final_def Let_def js_shl_arith js_ushr0_def uint_word_of_int h1_def)
qed

lemma hash_range: "0 \<le> hash sd ip \<and> hash sd ip < 2 ^ 32"
  by (simp add: hash_def hash_final_def Let_def js_ushr0_def uint_word_of_int)

lemma hash_0_a: "hash 0 ''a'' = 3392050242"
  by (simp add: hash_def hash_final_def hash_round_def js_rem_def js_shl_def js_sar_def
      js_xor_def js_ushr0_def Let_def)

lemma spec_mixer_0_a: "spec_mixer (sint (0 :: 32 word)) (map of_char ''a'') = 1244566594"
  by (simp add: spec_mixer_def spec_mixer_round_def Let_def)

text \<open>
  C2, the claim as stated, at seed \<open>0\<close> and the one-byte address \<open>a\<close>: the code returns
  3392050242, which is not below \<open>2^31\<close>, and the mixer of the specification, with logical
  shifts and additions wrapped to a non-negative value modulo \<open>2^31\<close>, gives 1244566594.
\<close>

theorem hash_differs_from_spec_mixer:
  "hash 0 ''a'' = 3392050242
   \<and> spec_mixer (sint (0 :: 32 word)) (map of_char ''a'') = 1244566594
   \<and> hash 0 ''a'' \<noteq> spec_mixer (sint (0 :: 32 word)) (map of_char ''a'')
   \<and> \<not> hash 0 ''a'' < 2 ^ 31"
  using hash_0_a spec_mixer_0_a by simp

text \<open>
  C2, amended: for every seed and every byte sequence, \<open>hash\<close> computes the mixer whose
  left shifts give signed 32-bit values, whose right shifts propagate the sign and whose
  reductions modulo \<open>2^31\<close> keep the sign of the dividend; the value of \<open>h\<close> after each
  byte is non-negative and below \<open>2^31\<close>, and the result is an unsigned 32-bit value.
\<close>

theorem hash_signed_mixer:
  "hash sd ip = signed_mixer (sint sd) (map of_char ip)
   \<and> 0 \<le> hash sd ip \<and> hash sd ip < 2 ^ 32
   \<and> (ip \<noteq> [] \<longrightarrow> 0 \<le> hash_loop (sint sd) ip \<and> hash_loop (sint sd) ip < 2 ^ 31)"
proof -
  have "hash sd ip = signed_mixer (sint sd) (map of_char ip)"
    by (simp add: hash_def signed_mixer_def hash_loop_arith hash_final_arith Let_def)
  then show ?thesis
    using hash_range [of sd ip] hash_loop_range [of ip "sint sd"] by simp
qed

theorem hash_signed_mixer_witness:
  "''a'' \<noteq> []
   \<and> signed_mixer (sint (0 :: 32 word)) (map of_char ''a'') = 3392050242
   \<and> 0 \<le> hash_loop (sint (0 :: 32 word)) ''a''
   \<and> hash_loop (sint (0 :: 32 word)) ''a'' < 2 ^ 31"
  using hash_signed_mixer [of 0 "''a''"] hash_0_a by simp

section \<open>The balancer: selection and delivery\<close>

lemma js_rem_nonneg: "0 \<le> a \<Longrightarrow> 0 < m \<Longrightarrow> js_rem a m = a mod m"
  by (cases "a = 0") (simp_all add: js_rem_def)

lemma select_worker_rr:
  assumes "\<not> isPermanentConnection s" "workers s \<noteq> []"
  shows "select_worker s sock = (hd (workers s), s\<lparr>workers := tl (workers s) @ [hd (workers s)]\<rparr>)"
  using assms by (cases "workers s") (simp_all add: select_worker_def)

lemma select_worker_sticky:
  assumes "isPermanentConnection s" "workers s \<noteq> []"
  shows "select_worker s sock =
    (workers s ! nat (hash (seed s) (remote_addr sock) mod int (length (workers s))), s)"
proof -
  have "js_rem (hash (seed s) (remote_addr sock)) (int (length (workers s)))
        = hash (seed s) (remote_addr sock) mod int (length (workers s))"
    using assms hash_range [of "seed s" "remote_addr sock"] by (intro js_rem_nonneg) simp_all
  then show ?thesis
    using assms by (simp add: select_worker_def Let_def)
qed

lemma balance_fst: "fst (balance s t sock) = snd (select_worker s sock)"
  by (simp add: balance_def split: prod.splits sum.splits)

lemma balance_rr_connected:
  assumes "\<not> isPermanentConnection s" "workers s = Handle w # rest" "connected s w"
  shows "balance s t sock =
           (s\<lparr>workers := rest @ [Handle w]\<rparr>,
            if t then [LogError SendFailure, EmitClose sock, EndSocket sock]
            else [Send w ''balancing'' sock])"
  using assms by (simp add: balance_def select_worker_def try_send_def)

lemma on_connections_rr:
  assumes "\<not> isPermanentConnection s" "ws \<noteq> []" "workers s = map Handle (rotate j ws)"
    and "\<forall>w\<in>set ws. connected s w"
  shows "on_connections s conns =
           (s\<lparr>workers := map Handle (rotate (j + length conns) ws)\<rparr>,
            map (\<lambda>i. if fst (conns ! i)
                      then [LogError SendFailure, EmitClose (snd (conns ! i)), EndSocket (snd (conns ! i))]
                      else [Send (ws ! ((j + i) mod length ws)) ''balancing'' (snd (conns ! i))])
              [0..<length conns])"
  using assms
proof (induction conns arbitrary: s j)
  case Nil
  then show ?case by simp
next
  case (Cons c cs)
  let ?w = "ws ! (j mod length ws)"
  let ?s1 = "s\<lparr>workers := map Handle (rotate (Suc j) ws)\<rparr>"
  let ?out = "\<lambda>k i. if fst (k ! i)
                      then [LogError SendFailure, EmitClose (snd (k ! i)), EndSocket (snd (k ! i))]
                      else [Send (ws ! ((j + i) mod length ws)) ''balancing'' (snd (k ! i))]"
  have ne: "rotate j ws \<noteq> []" using Cons.prems(2) by simp
  have hd: "hd (rotate j ws) = ?w"
    using Cons.prems(2) by (simp add: hd_rotate_conv_nth)
  have ws: "workers s = Handle ?w # map Handle (tl (rotate j ws))"
    using ne hd Cons.prems(3) by (cases "rotate j ws") simp_all
  have "?w \<in> set ws" using Cons.prems(2) by simp
  then have conn: "connected s ?w" using Cons.prems(4) by blast
  have rot: "map Handle (tl (rotate j ws)) @ [Handle ?w] = map Handle (rotate (Suc j) ws)"
    using ne hd by (simp add: rotate1_hd_tl)
  have b: "balance s (fst c) (snd c) = (?s1, ?out (c # cs) 0)"
    using balance_rr_connected [OF Cons.prems(1) ws conn, of "fst c" "snd c"] rot by simp
  have ih: "on_connections ?s1 cs =
      (?s1\<lparr>workers := map Handle (rotate (Suc j + length cs) ws)\<rparr>,
       map (\<lambda>i. if fst (cs ! i)
                 then [LogError SendFailure, EmitClose (snd (cs ! i)), EndSocket (snd (cs ! i))]
                 else [Send (ws ! ((Suc j + i) mod length ws)) ''balancing'' (snd (cs ! i))])
         [0..<length cs])"
    using Cons.prems by (intro Cons.IH) simp_all
  have tl: "map (\<lambda>i. if fst (cs ! i)
                 then [LogError SendFailure, EmitClose (snd (cs ! i)), EndSocket (snd (cs ! i))]
                 else [Send (ws ! ((Suc j + i) mod length ws)) ''balancing'' (snd (cs ! i))])
         [0..<length cs] = map (?out (c # cs)) (map Suc [0..<length cs])"
    by simp
  have "on_connections s (c # cs) =
          (s\<lparr>workers := map Handle (rotate (Suc j + length cs) ws)\<rparr>,
           ?out (c # cs) 0 # map (?out (c # cs)) (map Suc [0..<length cs]))"
    unfolding tl [symmetric] by (simp add: b ih del: rotate_Suc)
  also have "?out (c # cs) 0 # map (?out (c # cs)) (map Suc [0..<length cs])
               = map (?out (c # cs)) [0..<length (c # cs)]"
    by (simp add: upt_conv_Cons map_Suc_upt del: upt_Suc)
  finally show ?case by simp
qed

text \<open>
  C3: a routing list of \<open>M \<ge> 1\<close> connected workers, round-robin mode, \<open>K\<close> connections
  in sequence: connection \<open>i\<close> is sent, with the message \<open>balancing\<close>, to the worker at
  index \<open>i mod M\<close> of the initial list, unless \<open>worker.send\<close> itself throws for it, in
  which case that connection is dropped; each call selects the head of the list and moves
  it to the tail, so after \<open>K\<close> connections the list is the initial one rotated \<open>K\<close>
  times.
\<close>

theorem round_robin_distribution:
  assumes "\<not> isPermanentConnection s" and "ws \<noteq> []" and "workers s = map Handle ws"
    and "\<forall>w\<in>set ws. connected s w" and "i < length conns"
  shows "snd (on_connections s conns) ! i
           = (if fst (conns ! i)
              then [LogError SendFailure, EmitClose (snd (conns ! i)), EndSocket (snd (conns ! i))]
              else [Send (ws ! (i mod length ws)) ''balancing'' (snd (conns ! i))])
         \<and> length (snd (on_connections s conns)) = length conns
         \<and> workers (fst (on_connections s conns)) = map Handle (rotate (length conns) ws)
         \<and> fst (select_worker s sock) = Handle (hd ws)
         \<and> workers (snd (select_worker s sock)) = map Handle (tl ws @ [hd ws])"
proof -
  have "on_connections s conns =
           (s\<lparr>workers := map Handle (rotate (0 + length conns) ws)\<rparr>,
            map (\<lambda>i. if fst (conns ! i)
                      then [LogError SendFailure, EmitClose (snd (conns ! i)), EndSocket (snd (conns ! i))]
                      else [Send (ws ! ((0 + i) mod length ws)) ''balancing'' (snd (conns ! i))])
              [0..<length conns])"
    using assms(1-4) by (intro on_connections_rr) simp_all
  moreover have "workers s \<noteq> []" using assms(2,3) by simp
  moreover have "hd (map Handle ws) = Handle (hd ws)" "tl (map Handle ws) = map Handle (tl ws)"
    using assms(2) by (simp_all add: hd_map map_tl)
  ultimately show ?thesis
    using assms(1,3,5) by (simp add: select_worker_rr)
qed

lemma on_connections_sticky:
  assumes "isPermanentConnection s"
  shows "fst (on_connections s conns) = s"
proof (induction conns)
  case Nil
  then show ?case by simp
next
  case (Cons c cs)
  have "snd (select_worker s (snd c)) = s"
    using assms by (simp add: select_worker_def Let_def)
  then have "fst (balance s (fst c) (snd c)) = s"
    by (simp add: balance_fst)
  then show ?case
    using Cons.IH by (simp add: split_beta Let_def)
qed

lemma balance_sticky:
  assumes "isPermanentConnection s" and "workers s \<noteq> []"
  shows "balance s t sock =
           (s, case workers s ! nat (hash (seed s) (remote_addr sock) mod int (length (workers s))) of
                 Undefined \<Rightarrow> [LogError TypeError, EmitClose sock, EndSocket sock]
               | Handle w \<Rightarrow>
                   (if connected s w
                    then (if t then [LogError SendFailure, EmitClose sock, EndSocket sock]
                          else [Send w ''balancing'' sock])
                    else [LogError (Error ''Can't send message to worker''),
                          EmitClose sock, EndSocket sock]))"
  by (simp add: balance_def select_worker_sticky [OF assms] try_send_def split: slot.splits)

lemma on_connections_sticky_effects:
  assumes "isPermanentConnection s"
  shows "on_connections s conns = (s, map (\<lambda>c. snd (balance s (fst c) (snd c))) conns)"
proof (induction conns)
  case Nil
  then show ?case by simp
next
  case (Cons c cs)
  have "snd (select_worker s (snd c)) = s"
    using assms by (simp add: select_worker_def Let_def)
  then have "fst (balance s (fst c) (snd c)) = s"
    by (simp add: balance_fst)
  then show ?case
    using Cons.IH by (simp add: split_beta Let_def)
qed

text \<open>
  C4: in sticky mode, on a non-empty routing list, the balancer selects the worker at
  index \<open>hash(addr) mod len(workers)\<close>, an index inside the list, and acts on that
  worker: a handle that reports connected is sent the socket with the message
  \<open>balancing\<close> (unless \<open>worker.send\<close> itself throws), any other outcome logs the
  error, emits \<open>close\<close> on the socket and ends it. The master's state, and with it the
  routing list, is as it was, whatever the outcome; so after any number of connections a
  socket with the same remote address selects the same worker and is handled the same
  way.
\<close>

theorem sticky_selection:
  assumes "isPermanentConnection s" and "workers s \<noteq> []"
  shows "fst (select_worker s sock)
           = workers s ! nat (hash (seed s) (remote_addr sock) mod int (length (workers s)))
         \<and> nat (hash (seed s) (remote_addr sock) mod int (length (workers s))) < length (workers s)
         \<and> fst (balance s t sock) = s
         \<and> fst (on_connections s conns) = s
         \<and> (\<forall>sock'. remoteAddress sock' = remoteAddress sock \<longrightarrow>
               fst (select_worker (fst (on_connections s conns)) sock') = fst (select_worker s sock))
         \<and> snd (balance s t sock)
             = (case workers s ! nat (hash (seed s) (remote_addr sock) mod int (length (workers s))) of
                  Undefined \<Rightarrow> [LogError TypeError, EmitClose sock, EndSocket sock]
                | Handle w \<Rightarrow>
                    (if connected s w
                     then (if t then [LogError SendFailure, EmitClose sock, EndSocket sock]
                           else [Send w ''balancing'' sock])
                     else [LogError (Error ''Can't send message to worker''),
                           EmitClose sock, EndSocket sock]))
         \<and> (\<forall>w. workers s ! nat (hash (seed s) (remote_addr sock) mod int (length (workers s)))
                  = Handle w \<and> connected s w \<and> \<not> t \<longrightarrow>
                snd (balance s t sock) = [Send w ''balancing'' sock])
         \<and> snd (on_connections s conns) = map (\<lambda>c. snd (balance s (fst c) (snd c))) conns
         \<and> (\<forall>sock' t'. remoteAddress sock' = remoteAddress sock \<and> t' = t \<longrightarrow>
               snd (balance (fst (on_connections s conns)) t' sock')
                 = (case workers s ! nat (hash (seed s) (remote_addr sock) mod int (length (workers s))) of
                      Undefined \<Rightarrow> [LogError TypeError, EmitClose sock', EndSocket sock']
                    | Handle w \<Rightarrow>
                        (if connected s w
                         then (if t then [LogError SendFailure, EmitClose sock', EndSocket sock']
                               else [Send w ''balancing'' sock'])
                         else [LogError (Error ''Can't send message to worker''),
                               EmitClose sock', EndSocket sock'])))"
proof -
  have sel: "select_worker s k =
    (workers s ! nat (hash (seed s) (remote_addr k) mod int (length (workers s))), s)" for k
    using assms by (rule select_worker_sticky)
  have idx: "nat (hash (seed s) (remote_addr sock) mod int (length (workers s))) < length (workers s)"
    using assms(2) by (simp add: nat_less_iff)
  have st: "fst (on_connections s conns) = s"
    using assms(1) by (rule on_connections_sticky)
  have same: "fst (select_worker (fst (on_connections s conns)) sock') = fst (select_worker s sock)"
    if "remoteAddress sock' = remoteAddress sock" for sock'
  proof -
    have "remote_addr sock' = remote_addr sock"
      using that by (simp add: remote_addr_def)
    then show ?thesis by (simp add: st sel)
  qed
  have bal: "fst (balance s t sock) = s"
    by (simp add: balance_fst sel)
  have fst_sel: "fst (select_worker s sock)
           = workers s ! nat (hash (seed s) (remote_addr sock) mod int (length (workers s)))"
    by (simp add: sel)
  have eff: "snd (balance s t sock)
             = (case workers s ! nat (hash (seed s) (remote_addr sock) mod int (length (workers s))) of
                  Undefined \<Rightarrow> [LogError TypeError, EmitClose sock, EndSocket sock]
                | Handle w \<Rightarrow>
                    (if connected s w
                     then (if t then [LogError SendFailure, EmitClose sock, EndSocket sock]
                           else [Send w ''balancing'' sock])
                     else [LogError (Error ''Can't send message to worker''),
                           EmitClose sock, EndSocket sock]))"
    by (simp add: balance_sticky [OF assms])
  have sent: "snd (balance s t sock) = [Send w ''balancing'' sock]"
    if "workers s ! nat (hash (seed s) (remote_addr sock) mod int (length (workers s))) = Handle w
        \<and> connected s w \<and> \<not> t" for w
    using that eff by simp
  have all: "snd (on_connections s conns) = map (\<lambda>c. snd (balance s (fst c) (snd c))) conns"
    by (simp add: on_connections_sticky_effects [OF assms(1)])
  have again: "snd (balance (fst (on_connections s conns)) t' sock')
                 = (case workers s ! nat (hash (seed s) (remote_addr sock) mod int (length (workers s))) of
                      Undefined \<Rightarrow> [LogError TypeError, EmitClose sock', EndSocket sock']
                    | Handle w \<Rightarrow>
                        (if connected s w
                         then (if t then [LogError SendFailure, EmitClose sock', EndSocket sock']
                               else [Send w ''balancing'' sock'])
                         else [LogError (Error ''Can't send message to worker''),
                               EmitClose sock', EndSocket sock']))"
    if "remoteAddress sock' = remoteAddress sock \<and> t' = t" for sock' t'
  proof -
    have "remote_addr sock' = remote_addr sock"
      using that by (simp add: remote_addr_def)
    then show ?thesis
      using that by (simp add: st balance_sticky [OF assms])
  qed
  show ?thesis
    using fst_sel idx bal st same eff sent all again by blast
qed

lemma select_worker_mset:
  assumes "workers s \<noteq> []"
  shows "mset (workers (snd (select_worker s sock))) = mset (workers s)"
proof (cases "isPermanentConnection s")
  case True
  then show ?thesis by (simp add: select_worker_def Let_def)
next
  case False
  then show ?thesis using assms by (cases "workers s") (simp_all add: select_worker_def)
qed

lemma select_worker_member:
  assumes "workers s \<noteq> []"
  shows "fst (select_worker s sock) \<in> set (workers (snd (select_worker s sock)))"
proof (cases "isPermanentConnection s")
  case True
  then show ?thesis
    using assms select_worker_sticky [OF True assms, of sock] by (simp add: nat_less_iff)
next
  case False
  then show ?thesis using assms by (cases "workers s") (simp_all add: select_worker_def)
qed

lemma select_worker_connected: "connected (snd (select_worker s sock)) = connected s"
  by (simp add: select_worker_def Let_def split: list.splits)

text \<open>
  C6: on a non-empty routing list, a socket is sent only to the chosen worker, only with
  the message \<open>balancing\<close> and only if that worker reports connected; when the chosen
  worker is not connected, and on every other failure of the \<open>try\<close> block, the error is
  logged, \<open>close\<close> is emitted on the socket and the socket is ended, in this order; the
  failure handling does not touch the routing list, which is the list the selection
  left, with the same handles as before and the chosen worker among them.
\<close>

theorem balance_send_or_drop:
  assumes "workers s \<noteq> []"
  shows "(Send w msg so \<in> set (snd (balance s t sock)) \<longrightarrow>
            fst (select_worker s sock) = Handle w \<and> connected s w
            \<and> msg = ''balancing'' \<and> so = sock)
         \<and> (fst (select_worker s sock) = Handle w \<and> \<not> connected s w \<longrightarrow>
              snd (balance s t sock)
                = [LogError (Error ''Can't send message to worker''), EmitClose sock, EndSocket sock])
         \<and> (try_send (snd (select_worker s sock)) t (fst (select_worker s sock)) sock = Inl e \<longrightarrow>
              snd (balance s t sock) = [LogError e, EmitClose sock, EndSocket sock])
         \<and> fst (balance s t sock) = snd (select_worker s sock)
         \<and> mset (workers (fst (balance s t sock))) = mset (workers s)
         \<and> fst (select_worker s sock) \<in> set (workers (fst (balance s t sock)))"
proof -
  obtain worker s1 where sel: "select_worker s sock = (worker, s1)"
    by (cases "select_worker s sock")
  have c: "connected s1 = connected s"
    using select_worker_connected [of s sock] sel by simp
  have "mset (workers s1) = mset (workers s)"
    using select_worker_mset [OF assms, of sock] sel by simp
  moreover have "worker \<in> set (workers s1)"
    using select_worker_member [OF assms, of sock] sel by simp
  ultimately show ?thesis
    by (cases worker) (auto simp: balance_def sel try_send_def c split: if_splits)
qed

text \<open>
  C9: in round-robin mode on an empty routing list, \<open>balance\<close> returns normally: the
  TypeError of reading \<open>connected\<close> of \<open>undefined\<close> is caught, logged, and the socket
  is closed and ended; afterwards the routing list has length 1 and its only element is
  \<open>undefined\<close>, not a handle.
\<close>

theorem balance_rr_empty:
  assumes "\<not> isPermanentConnection s" and "workers s = []"
  shows "balance s t sock
           = (s\<lparr>workers := [Undefined]\<rparr>, [LogError TypeError, EmitClose sock, EndSocket sock])
         \<and> length (workers (fst (balance s t sock))) = 1
         \<and> workers (fst (balance s t sock)) ! 0 = Undefined
         \<and> \<not> is_handle (workers (fst (balance s t sock)) ! 0)"
  using assms by (simp add: balance_def select_worker_def try_send_def)

subsection \<open>Fields after \<open>fork\<close>, \<open>spawnWorker\<close> and \<open>respawn\<close>\<close>

lemma fork_fields:
  "workers (snd (fork s)) = workers s"
  "connected (snd (fork s)) = connected s"
  "needRespawn (snd (fork s)) = needRespawn s"
  "isPermanentConnection (snd (fork s)) = isPermanentConnection s"
  "processUniqueId (snd (fork s)) = processUniqueId s + 1"
  "NODE_UNIQUE_ID (fst (fork s)) = processUniqueId s + 1"
  by (simp_all add: fork_def Let_def)

lemma spawnWorker_fields:
  "workers (spawnWorker s) = workers s @ [Handle (processUniqueId s + 1)]"
  "connected (spawnWorker s) = (connected s)(processUniqueId s + 1 := True)"
  "needRespawn (spawnWorker s) = needRespawn s"
  "processUniqueId (spawnWorker s) = processUniqueId s + 1"
  by (simp_all add: spawnWorker_def split_beta Let_def fork_fields)

lemma indexOf_from_not_member: "x \<notin> set xs \<Longrightarrow> indexOf_from i xs x = - 1"
  by (induction xs arbitrary: i) auto

lemma indexOf_from_member:
  "x \<in> set xs \<Longrightarrow>
     \<exists>k. indexOf_from i xs x = int (i + k) \<and> k < length xs \<and> xs ! k = x \<and> x \<notin> set (take k xs)"
proof (induction xs arbitrary: i)
  case Nil
  then show ?case by simp
next
  case (Cons y ys)
  show ?case
  proof (cases "y = x")
    case True
    then have "indexOf_from i (y # ys) x = int (i + 0) \<and> 0 < length (y # ys)
               \<and> (y # ys) ! 0 = x \<and> x \<notin> set (take 0 (y # ys))"
      by simp
    then show ?thesis by blast
  next
    case False
    then have "x \<in> set ys" using Cons.prems by simp
    then obtain k where k: "indexOf_from (i + 1) ys x = int (i + 1 + k)" "k < length ys"
        "ys ! k = x" "x \<notin> set (take k ys)"
      using Cons.IH [of "i + 1"] by blast
    have "indexOf_from i (y # ys) x = int (i + Suc k) \<and> Suc k < length (y # ys)
               \<and> (y # ys) ! Suc k = x \<and> x \<notin> set (take (Suc k) (y # ys))"
      using False k by simp
    then show ?thesis by blast
  qed
qed

lemma splice1_first_occurrence:
  "k < length xs \<Longrightarrow> xs ! k = x \<Longrightarrow> x \<notin> set (take k xs) \<Longrightarrow> splice1 k xs = remove1 x xs"
proof (induction xs arbitrary: k)
  case Nil
  then show ?case by simp
next
  case (Cons y ys)
  then show ?case
    by (cases k) (auto simp: splice1_def)
qed

lemma respawn_workers:
  assumes "Handle w \<in> set (workers s)"
  shows "workers (respawn s w) = remove1 (Handle w) (workers s) @ [Handle (processUniqueId s + 1)]"
proof -
  obtain k where k: "indexOf (workers s) (Handle w) = int k" "k < length (workers s)"
      "workers s ! k = Handle w" "Handle w \<notin> set (take k (workers s))"
    using indexOf_from_member [OF assms, of 0] by (auto simp: indexOf_def)
  have "splice1 k (workers s) = remove1 (Handle w) (workers s)"
    using k(2-4) by (rule splice1_first_occurrence)
  then show ?thesis
    using k(1) by (simp add: respawn_def Let_def spawnWorker_fields)
qed

lemma respawn_workers_absent:
  assumes "Handle w \<notin> set (workers s)"
  shows "workers (respawn s w) = workers s @ [Handle (processUniqueId s + 1)]"
  using assms by (simp add: respawn_def Let_def indexOf_def indexOf_from_not_member spawnWorker_fields)

text \<open>
  When the dead worker stands at index \<open>i\<close> of the routing list (its first occurrence),
  \<open>respawn\<close> removes it from there and appends the replacement.
\<close>

lemma respawn_at_index:
  assumes "i < length (workers s)" and "workers s ! i = Handle w"
    and "Handle w \<notin> set (take i (workers s))"
  shows "workers (respawn s w)
           = take i (workers s) @ drop (Suc i) (workers s) @ [Handle (processUniqueId s + 1)]
         \<and> last (workers (respawn s w)) = Handle (processUniqueId s + 1)
         \<and> workers (respawn s w) ! (length (workers s) - 1) = Handle (processUniqueId s + 1)
         \<and> length (workers (respawn s w)) = length (workers s)
         \<and> (\<forall>j. i \<le> j \<and> j + 1 < length (workers s) \<longrightarrow>
               workers (respawn s w) ! j = workers s ! (j + 1))
         \<and> (\<forall>j < i. workers (respawn s w) ! j = workers s ! j)"
proof -
  let ?ws = "workers s"
  let ?new = "Handle (processUniqueId s + 1)"
  have mem: "Handle w \<in> set ?ws"
    using assms(1,2) nth_mem by fastforce
  have "remove1 (Handle w) ?ws = splice1 i ?ws"
    using assms by (simp add: splice1_first_occurrence)
  then have eq: "workers (respawn s w) = take i ?ws @ drop (Suc i) ?ws @ [?new]"
    using respawn_workers [OF mem] by (simp add: splice1_def)
  have len: "length (workers (respawn s w)) = length ?ws"
    using assms(1) by (simp add: eq)
  have "last (workers (respawn s w)) = ?new"
    by (simp add: eq)
  moreover have "workers (respawn s w) \<noteq> []"
    by (simp add: eq)
  ultimately have lst: "workers (respawn s w) ! (length ?ws - 1) = ?new"
    using len by (simp add: last_conv_nth)
  have shift: "workers (respawn s w) ! j = ?ws ! (j + 1)" if "i \<le> j" "j + 1 < length ?ws" for j
  proof -
    have a: "j - i < length ?ws - Suc i" and b: "Suc i + (j - i) = j + 1"
      using that by arith+
    have "workers (respawn s w) ! j = (drop (Suc i) ?ws @ [?new]) ! (j - i)"
      using that(1) assms(1) by (simp add: eq nth_append)
    also have "\<dots> = drop (Suc i) ?ws ! (j - i)"
      using a by (simp add: nth_append)
    also have "\<dots> = ?ws ! (Suc i + (j - i))"
      using a by (intro nth_drop) simp
    finally show ?thesis
      by (simp only: b)
  qed
  have keep: "workers (respawn s w) ! j = ?ws ! j" if "j < i" for j
    using that assms(1) by (simp add: eq nth_append)
  show ?thesis
    using eq len lst shift keep by simp
qed

section \<open>Supervision: fork, respawn and exit\<close>

lemma spawn_workers_1: "spawn_workers 1 s = spawnWorker s"
  by simp

lemma spawn_workers_2: "spawn_workers 2 s = spawnWorker (spawnWorker s)"
  by (simp add: numeral_2_eq_2)

lemma spawn_workers_3: "spawn_workers 3 s = spawnWorker (spawnWorker (spawnWorker s))"
  by (simp add: numeral_3_eq_3)

lemmas run_simps = startCluster_def spawn_workers_1 spawn_workers_2 spawn_workers_3
  spawnWorker_def fork_def Let_def inspectRegex_def maxPort_def strip_inspect_brk.simps
  splice1_def string_of_nat.simps digit_def

lemma respawn_fields:
  "connected (respawn s w) = (connected s)(processUniqueId s + 1 := True)"
  "processUniqueId (respawn s w) = processUniqueId s + 1"
  "needRespawn (respawn s w) = needRespawn s"
  by (simp_all add: respawn_def Let_def spawnWorker_fields)

lemma slot_known_mono: "slot_known s x \<Longrightarrow> processUniqueId s \<le> processUniqueId s' \<Longrightarrow> slot_known s' x"
  by (cases x) simp_all

lemma slot_known_fresh: "list_all (slot_known s) ws \<Longrightarrow> Handle (processUniqueId s + 1) \<notin> set ws"
  by (auto simp: list_all_iff)

lemma routing_ok_spawnWorker:
  assumes "routing_ok s"
  shows "routing_ok (spawnWorker s)"
proof -
  have "list_all (slot_known (spawnWorker s)) (workers s)"
    using assms slot_known_mono [of s _ "spawnWorker s"]
    by (auto simp: routing_ok_def list_all_iff spawnWorker_fields)
  then show ?thesis
    using assms slot_known_fresh [of s "workers s"]
    by (simp add: routing_ok_def spawnWorker_fields)
qed

lemma all_connected_spawnWorker:
  assumes "all_connected s"
  shows "all_connected (spawnWorker s)"
proof -
  have "slot_connected (spawnWorker s) x" if "slot_connected s x" for x
    using that by (cases x) (simp_all add: spawnWorker_fields)
  then show ?thesis
    using assms by (auto simp: all_connected_def list_all_iff spawnWorker_fields)
qed

lemma spawn_workers_ok:
  "routing_ok s \<Longrightarrow> all_connected s \<Longrightarrow>
     routing_ok (spawn_workers n s) \<and> all_connected (spawn_workers n s)"
  by (induction n arbitrary: s) (simp_all add: routing_ok_spawnWorker all_connected_spawnWorker)

lemma startCluster_ok:
  "routing_ok (startCluster n r p sd argv dport) \<and> all_connected (startCluster n r p sd argv dport)"
  unfolding startCluster_def
  by (rule spawn_workers_ok) (simp_all add: routing_ok_def all_connected_def)

text \<open>
  C1, the claim as stated, on the example cluster (two connected workers,
  \<open>respawn: false\<close>): after the exit of worker 1 has been handled the routing list
  still is \<open>[1, 2]\<close>, so it holds worker 1, whose channel is not connected.
\<close>

theorem exit_without_respawn_keeps_worker:
  "all_connected example_cluster
   \<and> \<not> needRespawn example_cluster
   \<and> workers example_cluster = [Handle 1, Handle 2]
   \<and> workers (exit_event example_cluster 1) = [Handle 1, Handle 2]
   \<and> Handle 1 \<in> set (workers (exit_event example_cluster 1))
   \<and> \<not> connected (exit_event example_cluster 1) 1
   \<and> \<not> all_connected (exit_event example_cluster 1)"
  by (simp add: example_cluster_def exit_event_def on_exit_def all_connected_def run_simps)

text \<open>
  C1, amended: for a worker \<open>W\<close> in a well-formed routing list, the exit of \<open>W\<close> with
  \<open>respawn = true\<close> removes \<open>W\<close> and appends a fresh, connected replacement, which
  keeps the length of the list, keeps it well-formed, and leaves only connected workers in
  it when the other workers were connected; with \<open>respawn = false\<close> the handler does
  nothing, so the routing list is unchanged and still holds \<open>W\<close>, which is not
  connected.
\<close>

theorem exit_event_routing:
  assumes "routing_ok s" and "Handle w \<in> set (workers s)"
  shows "(needRespawn s \<longrightarrow>
            workers (exit_event s w)
              = remove1 (Handle w) (workers s) @ [Handle (processUniqueId s + 1)]
            \<and> Handle w \<notin> set (workers (exit_event s w))
            \<and> length (workers (exit_event s w)) = length (workers s)
            \<and> routing_ok (exit_event s w)
            \<and> (list_all (slot_connected s) (remove1 (Handle w) (workers s)) \<longrightarrow>
                 all_connected (exit_event s w)))
         \<and> (\<not> needRespawn s \<longrightarrow>
              workers (exit_event s w) = workers s
              \<and> Handle w \<in> set (workers (exit_event s w))
              \<and> \<not> connected (exit_event s w) w
              \<and> \<not> all_connected (exit_event s w))"
proof -
  let ?s' = "s\<lparr>connected := (connected s)(w := False)\<rparr>"
  let ?new = "processUniqueId s + 1"
  let ?rest = "remove1 (Handle w) (workers s)"
  have dist: "distinct (workers s)" and known: "list_all (slot_known s) (workers s)"
    using assms(1) by (simp_all add: routing_ok_def)
  have w_old: "w \<le> processUniqueId s"
    using known assms(2) by (auto simp: list_all_iff)
  have fresh: "Handle ?new \<notin> set (workers s)"
    using known by (rule slot_known_fresh)
  have no_respawn: ?thesis if "\<not> needRespawn s"
  proof -
    have e: "exit_event s w = ?s'"
      using that by (simp add: exit_event_def on_exit_def)
    have nc: "\<not> slot_connected ?s' (Handle w)" by simp
    have "\<not> all_connected ?s'"
    proof
      assume "all_connected ?s'"
      then have "slot_connected ?s' (Handle w)"
        using assms(2) unfolding all_connected_def list_all_iff by fastforce
      with nc show False by contradiction
    qed
    then show ?thesis
      using that assms(2) by (simp add: e)
  qed
  have with_respawn: ?thesis if r: "needRespawn s"
  proof -
    have e: "exit_event s w = respawn ?s' w"
      using r by (simp add: exit_event_def on_exit_def)
    have ws: "workers (exit_event s w) = ?rest @ [Handle ?new]"
      using respawn_workers [of w ?s'] assms(2) by (simp add: e)
    have gone: "Handle w \<notin> set (workers (exit_event s w))"
      using dist w_old by (simp add: ws)
    have "0 < length (workers s)"
      using assms(2) by (rule length_pos_if_in_set)
    then have len: "length (workers (exit_event s w)) = length (workers s)"
      using assms(2) by (simp add: ws length_remove1)
    have pid: "processUniqueId (exit_event s w) = ?new"
      by (simp add: e respawn_fields)
    have con: "connected (exit_event s w) = (connected s)(w := False, ?new := True)"
      by (simp add: e respawn_fields)
    have "slot_known (exit_event s w) x" if "x \<in> set (workers s)" for x
    proof -
      have "slot_known s x"
        using known that by (simp add: list_all_iff)
      then show ?thesis
        by (rule slot_known_mono) (simp add: pid)
    qed
    then have "list_all (slot_known (exit_event s w)) (?rest @ [Handle ?new])"
      using pid by (auto simp: list_all_iff dest: notin_set_remove1)
    moreover have "distinct (?rest @ [Handle ?new])"
      using dist fresh by (auto dest: notin_set_remove1)
    ultimately have ok: "routing_ok (exit_event s w)"
      by (simp add: routing_ok_def ws)
    have allc: "all_connected (exit_event s w)" if c: "list_all (slot_connected s) ?rest"
    proof -
      have "slot_connected (exit_event s w) x" if x: "x \<in> set ?rest" for x
      proof -
        have sc: "slot_connected s x"
          using c x unfolding list_all_iff by blast
        show ?thesis
        proof (cases x)
          case Undefined
          then show ?thesis using sc by simp
        next
          case (Handle v)
          have "v \<noteq> w" using x dist Handle by auto
          moreover have "connected s v" using sc Handle by simp
          ultimately show ?thesis by (simp add: Handle con)
        qed
      qed
      moreover have "slot_connected (exit_event s w) (Handle ?new)"
        by (simp add: con)
      ultimately show ?thesis
        by (auto simp: all_connected_def ws list_all_iff)
    qed
    show ?thesis
      using r ws gone len ok allc by blast
  qed
  show ?thesis
    using no_respawn with_respawn by blast
qed

text \<open>
  The port that \<open>fork\<close> appends when an argument matches: the master's debug port plus
  the current offset, less one when the sum exceeds \<open>maxPort\<close>; the offset then grows by
  one.
\<close>

lemma fork_inspect_port:
  assumes "list_ex inspectRegex (execArgv s)"
  shows "last (child_execArgv (fst (fork s)))
           = ''--inspect-brk='' @ string_of_nat
               (if debugPort s + debugPortOffset s > 65535
                then debugPort s + debugPortOffset s - 1
                else debugPort s + debugPortOffset s)"
    and "debugPortOffset (snd (fork s)) = debugPortOffset s + 1"
  using assms by (simp_all add: fork_def Let_def maxPort_def)

text \<open>
  C5, at a master started with \<open>--inspect=65534\<close> (debug port 65534) and two workers:
  both children are given \<open>--inspect-brk=65535\<close>; and at debug port 65535 the second
  child is given port 65536.
\<close>

theorem debug_port_collision:
  "map child_execArgv (forked (startCluster 2 True False 0 [''--inspect=65534''] 65534))
     = [[''--inspect=65534'', ''--inspect-brk=65535''],
        [''--inspect=65534'', ''--inspect-brk=65535'']]
   \<and> map child_execArgv (forked (startCluster 2 True False 0 [''--inspect=65535''] 65535))
     = [[''--inspect=65535'', ''--inspect-brk=65535''],
        [''--inspect=65535'', ''--inspect-brk=65536'']]"
  by (simp add: run_simps)

text \<open>
  C8, at a master started with \<open>--inspect-brk --inspect-brk=9229\<close>: the loop removes
  the first argument and steps over the second, so the child's arguments still hold the
  master's \<open>--inspect-brk=9229\<close> before the appended \<open>--inspect-brk=9230\<close>.
\<close>

theorem inspect_brk_survives:
  "child_execArgv (fst (fork (startCluster 0 True False 0 [''--inspect-brk'', ''--inspect-brk=9229''] 9229)))
     = [''--inspect-brk=9229'', ''--inspect-brk=9230'']"
  by (simp add: run_simps)

text \<open>
  The scenario of the specification: a master started with \<open>--inspect-brk=9229\<close> and
  two workers gives its children \<open>--inspect-brk=9230\<close> and \<open>--inspect-brk=9231\<close> only.
\<close>

lemma debug_port_offsetting_example:
  "map child_execArgv (forked (startCluster 2 True False 0 [''--inspect-brk=9229''] 9229))
     = [[''--inspect-brk=9230''], [''--inspect-brk=9231'']]"
  by (simp add: run_simps)

text \<open>
  C7: the worker's message handler increments \<open>_connections\<close> by one, makes the server
  the socket's owner and emits \<open>connection\<close> with the socket when the message is the
  string \<open>balancing\<close> and a socket is attached; in every other case the server and the
  socket are as before. The counter grows, and an event is emitted, exactly in the first
  case.
\<close>

theorem on_message_balancing:
  "(msg = JString ''balancing'' \<and> sock = Some so \<longrightarrow>
      on_message srv msg sock
        = (srv\<lparr>connections := connections srv + 1,
                emitted := emitted srv @ [(''connection'', sock_id so)]\<rparr>,
           Some (so\<lparr>server := Some (server_id srv)\<rparr>)))
   \<and> (\<not> (msg = JString ''balancing'' \<and> sock \<noteq> None) \<longrightarrow> on_message srv msg sock = (srv, sock))
   \<and> (connections (fst (on_message srv msg sock)) = connections srv + 1
        \<longleftrightarrow> msg = JString ''balancing'' \<and> sock \<noteq> None)
   \<and> (emitted (fst (on_message srv msg sock)) \<noteq> emitted srv
        \<longleftrightarrow> msg = JString ''balancing'' \<and> sock \<noteq> None)"
  by (cases sock) (auto simp: on_message_def)

section \<open>The theorems at concrete clusters\<close>

lemma example_cluster_fields:
  "workers example_cluster = [Handle 1, Handle 2]"
  "\<not> isPermanentConnection example_cluster"
  "\<not> needRespawn example_cluster"
  "connected example_cluster 1"
  "connected example_cluster (Suc 0)"
  "connected example_cluster 2"
  "processUniqueId example_cluster = 2"
  by (simp_all add: example_cluster_def run_simps)

lemma example_sticky_cluster_fields:
  "workers example_sticky_cluster = [Handle 1, Handle 2, Handle 3]"
  "isPermanentConnection example_sticky_cluster"
  "needRespawn example_sticky_cluster"
  "connected example_sticky_cluster 1"
  "connected example_sticky_cluster (Suc 0)"
  "connected example_sticky_cluster 2"
  "connected example_sticky_cluster 3"
  "processUniqueId example_sticky_cluster = 3"
  "seed example_sticky_cluster = 0"
  by (simp_all add: example_sticky_cluster_def run_simps)

lemma example_after_exit_fields:
  "workers example_after_exit = [Handle 1, Handle 2]"
  "\<not> isPermanentConnection example_after_exit"
  "\<not> connected example_after_exit 1"
  "\<not> connected example_after_exit (Suc 0)"
  "connected example_after_exit 2"
  by (simp_all add: example_after_exit_def exit_event_def on_exit_def example_cluster_fields)

lemma hash_0_10_0_0_7: "hash 0 ''10.0.0.7'' = 308306285"
  by (simp add: hash_def hash_final_def hash_round_def js_rem_def js_shl_def js_sar_def
      js_xor_def js_ushr0_def Let_def)

lemma example_after_close_fields:
  "workers example_after_close = [Handle 2, Handle 3, Handle 4]"
  "processUniqueId example_after_close = 4"
  "needRespawn example_after_close"
  by (simp_all add: example_after_close_def on_worker_message_def example_sticky_cluster_fields
      respawn_workers respawn_fields)

text \<open>
  C10, the claim as stated, on the sticky cluster of three workers with
  \<open>respawn: true\<close>: worker 1 announces the close of its server and is respawned, which
  leaves \<open>[2, 3, 4]\<close>; its process then exits and \<open>respawn\<close> runs for it again, finds
  it nowhere in the list, removes nothing and still appends a replacement: the list is
  \<open>[2, 3, 4, 5]\<close> and the pool has grown.
\<close>

theorem respawn_twice_grows_pool:
  "workers example_sticky_cluster = [Handle 1, Handle 2, Handle 3]
   \<and> workers example_after_close = [Handle 2, Handle 3, Handle 4]
   \<and> Handle 1 \<notin> set (workers example_after_close)
   \<and> workers (respawn example_after_close 1) = [Handle 2, Handle 3, Handle 4, Handle 5]
   \<and> workers (exit_event example_after_close 1) = [Handle 2, Handle 3, Handle 4, Handle 5]
   \<and> length (workers (respawn example_after_close 1)) \<noteq> length (workers example_after_close)"
  by (simp add: example_sticky_cluster_fields example_after_close_fields respawn_workers_absent
      exit_event_def on_exit_def)

text \<open>
  C10, amended: every call of \<open>respawn\<close> appends the replacement at the tail of the
  routing list, so the replacement is the last element wherever the dead worker stood.
  When the dead worker's handle is in the list, it is removed from its index (its first
  occurrence), the workers before it keep their positions, those after it move up by one
  and the length is preserved; when the handle is not in the list, nothing is removed and
  the list is one longer.
\<close>

theorem respawn_appends_at_tail:
  "workers (respawn s w)
     = remove1 (Handle w) (workers s) @ [Handle (processUniqueId s + 1)]
   \<and> last (workers (respawn s w)) = Handle (processUniqueId s + 1)
   \<and> length (workers (respawn s w))
       = (if Handle w \<in> set (workers s) then length (workers s) else length (workers s) + 1)
   \<and> (\<forall>i. i < length (workers s) \<and> workers s ! i = Handle w
            \<and> Handle w \<notin> set (take i (workers s)) \<longrightarrow>
          workers (respawn s w)
            = take i (workers s) @ drop (Suc i) (workers s) @ [Handle (processUniqueId s + 1)]
          \<and> workers (respawn s w) ! (length (workers s) - 1) = Handle (processUniqueId s + 1)
          \<and> length (workers (respawn s w)) = length (workers s)
          \<and> (\<forall>j. i \<le> j \<and> j + 1 < length (workers s) \<longrightarrow>
                workers (respawn s w) ! j = workers s ! (j + 1))
          \<and> (\<forall>j < i. workers (respawn s w) ! j = workers s ! j))
   \<and> (Handle w \<notin> set (workers s) \<longrightarrow>
         workers (respawn s w) = workers s @ [Handle (processUniqueId s + 1)])"
proof -
  let ?new = "Handle (processUniqueId s + 1)"
  have eq: "workers (respawn s w) = remove1 (Handle w) (workers s) @ [?new]"
  proof (cases "Handle w \<in> set (workers s)")
    case True
    then show ?thesis by (rule respawn_workers)
  next
    case False
    then show ?thesis by (simp add: respawn_workers_absent remove1_idem)
  qed
  have lst: "last (workers (respawn s w)) = ?new"
    by (simp add: eq)
  have len: "length (workers (respawn s w))
       = (if Handle w \<in> set (workers s) then length (workers s) else length (workers s) + 1)"
  proof (cases "Handle w \<in> set (workers s)")
    case True
    then have "0 < length (workers s)" by (rule length_pos_if_in_set)
    then show ?thesis using True by (simp add: eq length_remove1)
  next
    case False
    then show ?thesis by (simp add: eq remove1_idem)
  qed
  have at: "workers (respawn s w)
            = take i (workers s) @ drop (Suc i) (workers s) @ [?new]
          \<and> workers (respawn s w) ! (length (workers s) - 1) = ?new
          \<and> length (workers (respawn s w)) = length (workers s)
          \<and> (\<forall>j. i \<le> j \<and> j + 1 < length (workers s) \<longrightarrow>
                workers (respawn s w) ! j = workers s ! (j + 1))
          \<and> (\<forall>j < i. workers (respawn s w) ! j = workers s ! j)"
    if "i < length (workers s) \<and> workers s ! i = Handle w \<and> Handle w \<notin> set (take i (workers s))"
    for i
    using respawn_at_index [of i s w] that by blast
  have absent: "workers (respawn s w) = workers s @ [?new]" if "Handle w \<notin> set (workers s)"
    using that by (rule respawn_workers_absent)
  show ?thesis
    using eq lst len at absent by blast
qed

theorem round_robin_distribution_witness:
  "\<not> isPermanentConnection example_cluster
   \<and> workers example_cluster = map Handle [1, 2]
   \<and> list_all (connected example_cluster) [1, 2]
   \<and> snd (on_connections example_cluster example_conns) ! 0
        = [Send 1 ''balancing'' (example_socket 10 ''10.0.0.7'')]
   \<and> snd (on_connections example_cluster example_conns) ! 1
        = [Send 2 ''balancing'' (example_socket 11 ''10.0.0.7'')]
   \<and> snd (on_connections example_cluster example_conns) ! 2
        = [Send 1 ''balancing'' (example_socket 12 ''10.0.0.8'')]"
proof -
  have h1: "\<not> isPermanentConnection example_cluster"
    by (simp add: example_cluster_fields)
  have h2: "[1, 2] \<noteq> ([] :: nat list)"
    by simp
  have h3: "workers example_cluster = map Handle [1, 2]"
    by (simp add: example_cluster_fields)
  have h4: "\<forall>w\<in>set [1, 2]. connected example_cluster w"
    by (simp add: example_cluster_fields)
  have c: "snd (on_connections example_cluster example_conns) ! i
             = (if fst (example_conns ! i)
                then [LogError SendFailure, EmitClose (snd (example_conns ! i)),
                      EndSocket (snd (example_conns ! i))]
                else [Send ([1, 2] ! (i mod length [1 :: nat, 2])) ''balancing''
                        (snd (example_conns ! i))])"
    if "i < length example_conns" for i
    using round_robin_distribution [OF h1 h2 h3 h4 that] by blast
  have i0: "[1, 2] ! (0 mod length [1 :: nat, 2]) = (1 :: nat)"
    and i1: "[1, 2] ! (1 mod length [1 :: nat, 2]) = (2 :: nat)"
    and i2: "[1, 2] ! (2 mod length [1 :: nat, 2]) = (1 :: nat)"
    by (simp_all add: numeral_2_eq_2)
  have s0: "snd (example_conns ! 0) = example_socket 10 ''10.0.0.7''"
    and s1: "snd (example_conns ! 1) = example_socket 11 ''10.0.0.7''"
    and s2: "snd (example_conns ! 2) = example_socket 12 ''10.0.0.8''"
    by (simp_all add: example_conns_def)
  have f0: "fst (example_conns ! 0) = False"
    and f1: "fst (example_conns ! 1) = False"
    and f2: "fst (example_conns ! 2) = False"
    by (simp_all add: example_conns_def)
  have "0 < length example_conns"
    by (simp add: example_conns_def)
  then have r0: "snd (on_connections example_cluster example_conns) ! 0
        = [Send 1 ''balancing'' (example_socket 10 ''10.0.0.7'')]"
    using c [of 0] by (simp only: i0 s0 f0 if_False)
  have "1 < length example_conns"
    by (simp add: example_conns_def)
  then have r1: "snd (on_connections example_cluster example_conns) ! 1
        = [Send 2 ''balancing'' (example_socket 11 ''10.0.0.7'')]"
    using c [of 1] by (simp only: i1 s1 f1 if_False)
  have "2 < length example_conns"
    by (simp add: example_conns_def)
  then have r2: "snd (on_connections example_cluster example_conns) ! 2
        = [Send 1 ''balancing'' (example_socket 12 ''10.0.0.8'')]"
    using c [of 2] by (simp only: i2 s2 f2 if_False)
  have h4': "list_all (connected example_cluster) [1, 2]"
    using h4 by (simp only: list_all_iff)
  show ?thesis
    using h1 h3 h4' r0 r1 r2 by blast
qed

theorem sticky_selection_witness:
  "isPermanentConnection example_sticky_cluster
   \<and> workers example_sticky_cluster \<noteq> []
   \<and> fst (select_worker example_sticky_cluster (example_socket 10 ''10.0.0.7'')) = Handle 3
   \<and> fst (balance example_sticky_cluster False (example_socket 10 ''10.0.0.7''))
        = example_sticky_cluster
   \<and> fst (select_worker (fst (on_connections example_sticky_cluster example_conns))
           (example_socket 11 ''10.0.0.7'')) = Handle 3
   \<and> snd (balance example_sticky_cluster False (example_socket 10 ''10.0.0.7''))
        = [Send 3 ''balancing'' (example_socket 10 ''10.0.0.7'')]
   \<and> snd (on_connections example_sticky_cluster example_conns) ! 0
        = [Send 3 ''balancing'' (example_socket 10 ''10.0.0.7'')]
   \<and> snd (balance (fst (on_connections example_sticky_cluster example_conns)) False
           (example_socket 11 ''10.0.0.7''))
        = [Send 3 ''balancing'' (example_socket 11 ''10.0.0.7'')]"
proof -
  let ?s = example_sticky_cluster
  let ?sock = "example_socket 10 ''10.0.0.7''"
  let ?sock' = "example_socket 11 ''10.0.0.7''"
  let ?i = "nat (hash (seed ?s) (remote_addr ?sock) mod int (length (workers ?s)))"
  have h1: "isPermanentConnection ?s"
    by (simp add: example_sticky_cluster_fields)
  have h2: "workers ?s \<noteq> []"
    by (simp add: example_sticky_cluster_fields)
  note c = sticky_selection [OF h1 h2, of ?sock False example_conns]
  have addr: "remote_addr ?sock = ''10.0.0.7''"
    by (simp add: remote_addr_def example_socket_def)
  have idx: "workers ?s ! ?i = Handle 3"
    by (simp add: addr example_sticky_cluster_fields hash_0_10_0_0_7)
  have con: "connected ?s 3"
    by (simp add: example_sticky_cluster_fields)
  have a: "fst (select_worker ?s ?sock) = Handle 3"
    using c idx by simp
  have b: "fst (balance ?s False ?sock) = ?s"
    using c by blast
  have same: "remoteAddress ?sock' = remoteAddress ?sock"
    by (simp add: example_socket_def)
  have "fst (select_worker (fst (on_connections ?s example_conns)) ?sock')
          = fst (select_worker ?s ?sock)"
    using c same by blast
  then have d: "fst (select_worker (fst (on_connections ?s example_conns)) ?sock') = Handle 3"
    using a by simp
  have "workers ?s ! ?i = Handle 3 \<and> connected ?s 3 \<and> \<not> False"
    using idx con by simp
  then have e: "snd (balance ?s False ?sock) = [Send 3 ''balancing'' ?sock]"
    using c by blast
  have m: "snd (on_connections ?s example_conns)
             = map (\<lambda>c. snd (balance ?s (fst c) (snd c))) example_conns"
    using c by blast
  have "map (\<lambda>c. snd (balance ?s (fst c) (snd c))) example_conns ! 0 = snd (balance ?s False ?sock)"
    by (simp add: example_conns_def)
  then have f: "snd (on_connections ?s example_conns) ! 0 = [Send 3 ''balancing'' ?sock]"
    by (simp only: m e)
  have "remoteAddress ?sock' = remoteAddress ?sock \<and> False = False"
    using same by simp
  then have "snd (balance (fst (on_connections ?s example_conns)) False ?sock')
      = (case workers ?s ! ?i of
           Undefined \<Rightarrow> [LogError TypeError, EmitClose ?sock', EndSocket ?sock']
         | Handle w \<Rightarrow>
             (if connected ?s w
              then (if False then [LogError SendFailure, EmitClose ?sock', EndSocket ?sock']
                    else [Send w ''balancing'' ?sock'])
              else [LogError (Error ''Can't send message to worker''),
                    EmitClose ?sock', EndSocket ?sock']))"
    using c by blast
  then have g: "snd (balance (fst (on_connections ?s example_conns)) False ?sock')
      = [Send 3 ''balancing'' ?sock']"
    by (simp add: idx con)
  show ?thesis
    using h1 h2 a b d e f g by blast
qed

theorem balance_send_or_drop_witness:
  "workers example_after_exit \<noteq> []
   \<and> fst (select_worker example_after_exit (example_socket 10 ''10.0.0.7'')) = Handle 1
   \<and> \<not> connected example_after_exit 1
   \<and> snd (balance example_after_exit False (example_socket 10 ''10.0.0.7''))
        = [LogError (Error ''Can't send message to worker''),
           EmitClose (example_socket 10 ''10.0.0.7''), EndSocket (example_socket 10 ''10.0.0.7'')]
   \<and> mset (workers (fst (balance example_after_exit False (example_socket 10 ''10.0.0.7''))))
        = mset (workers example_after_exit)
   \<and> Handle 1 \<in> set (workers (fst (balance example_after_exit False
                                      (example_socket 10 ''10.0.0.7''))))
   \<and> Send 1 ''balancing'' (example_socket 10 ''10.0.0.7'')
        \<in> set (snd (balance example_cluster False (example_socket 10 ''10.0.0.7'')))
   \<and> connected example_cluster 1"
proof -
  let ?s = example_after_exit
  let ?sock = "example_socket 10 ''10.0.0.7''"
  have ws: "workers ?s = [Handle 1, Handle 2]"
    by (simp add: example_after_exit_fields)
  have perm: "\<not> isPermanentConnection ?s"
    by (simp add: example_after_exit_fields)
  have h: "workers ?s \<noteq> []"
    by (simp add: ws)
  have sel: "fst (select_worker ?s ?sock) = Handle 1"
    using perm by (simp add: select_worker_def ws)
  have dead: "\<not> connected ?s 1"
    by (simp add: example_after_exit_fields)
  note c = balance_send_or_drop [OF h, of 1 _ _ False ?sock]
  have drop: "snd (balance ?s False ?sock)
        = [LogError (Error ''Can't send message to worker''), EmitClose ?sock, EndSocket ?sock]"
    using c sel dead by blast
  have kept: "mset (workers (fst (balance ?s False ?sock))) = mset (workers ?s)"
    and mem: "fst (select_worker ?s ?sock) \<in> set (workers (fst (balance ?s False ?sock)))"
    using c by blast+
  have h': "workers example_cluster \<noteq> []"
    by (simp add: example_cluster_fields)
  have sent: "Send 1 ''balancing'' ?sock \<in> set (snd (balance example_cluster False ?sock))"
    by (simp add: balance_def select_worker_def try_send_def example_cluster_fields)
  have "connected example_cluster 1"
    using balance_send_or_drop [OF h', of 1 "''balancing''" ?sock False ?sock] sent by blast
  then show ?thesis
    using h sel dead drop kept mem sent by simp
qed

theorem balance_rr_empty_witness:
  "\<not> isPermanentConnection (startCluster 0 False False 0 [] 9229)
   \<and> workers (startCluster 0 False False 0 [] 9229) = []
   \<and> workers (fst (balance (startCluster 0 False False 0 [] 9229) False
                      (example_socket 10 ''10.0.0.7''))) = [Undefined]
   \<and> snd (balance (startCluster 0 False False 0 [] 9229) False (example_socket 10 ''10.0.0.7''))
        = [LogError TypeError, EmitClose (example_socket 10 ''10.0.0.7''),
           EndSocket (example_socket 10 ''10.0.0.7'')]"
proof -
  let ?s = "startCluster 0 False False 0 [] 9229"
  have h1: "\<not> isPermanentConnection ?s" and h2: "workers ?s = []"
    by (simp_all add: startCluster_def)
  have c: "balance ?s False (example_socket 10 ''10.0.0.7'')
      = (?s\<lparr>workers := [Undefined]\<rparr>,
         [LogError TypeError, EmitClose (example_socket 10 ''10.0.0.7''),
          EndSocket (example_socket 10 ''10.0.0.7'')])"
    using balance_rr_empty [OF h1 h2, of False "example_socket 10 ''10.0.0.7''"] by blast
  show ?thesis
    using h1 h2 by (simp add: c)
qed

theorem respawn_appends_at_tail_witness:
  "0 < length (workers example_sticky_cluster)
   \<and> workers example_sticky_cluster ! 0 = Handle 1
   \<and> Handle 1 \<notin> set (take 0 (workers example_sticky_cluster))
   \<and> workers example_sticky_cluster = [Handle 1, Handle 2, Handle 3]
   \<and> workers (respawn example_sticky_cluster 1) = [Handle 2, Handle 3, Handle 4]
   \<and> last (workers (respawn example_sticky_cluster 1)) = Handle 4
   \<and> workers (respawn example_sticky_cluster 1) ! 0 = workers example_sticky_cluster ! 1
   \<and> length (workers (respawn example_sticky_cluster 1)) = length (workers example_sticky_cluster)
   \<and> Handle 1 \<notin> set (workers example_after_close)
   \<and> workers (respawn example_after_close 1) = workers example_after_close @ [Handle 5]"
proof -
  let ?s = example_sticky_cluster
  have h: "0 < length (workers ?s) \<and> workers ?s ! 0 = Handle 1
           \<and> Handle 1 \<notin> set (take 0 (workers ?s))"
    by (simp add: example_sticky_cluster_fields)
  note c = respawn_appends_at_tail [of ?s 1]
  have eq: "workers (respawn ?s 1)
              = take 0 (workers ?s) @ drop (Suc 0) (workers ?s) @ [Handle (processUniqueId ?s + 1)]"
    using c h by blast
  have ws: "workers (respawn ?s 1) = [Handle 2, Handle 3, Handle 4]"
    using eq by (simp add: example_sticky_cluster_fields)
  have "last (workers (respawn ?s 1)) = Handle (processUniqueId ?s + 1)"
    using c by blast
  then have lst: "last (workers (respawn ?s 1)) = Handle 4"
    by (simp add: example_sticky_cluster_fields)
  have len: "length (workers (respawn ?s 1)) = length (workers ?s)"
    using c h by blast
  have "(0 :: nat) \<le> 0 \<and> 0 + 1 < length (workers ?s)"
    by (simp add: example_sticky_cluster_fields)
  then have "workers (respawn ?s 1) ! 0 = workers ?s ! (0 + 1)"
    using c h by blast
  then have sh: "workers (respawn ?s 1) ! 0 = workers ?s ! 1"
    by simp
  have full: "workers ?s = [Handle 1, Handle 2, Handle 3]"
    by (simp add: example_sticky_cluster_fields)
  have gone: "Handle 1 \<notin> set (workers example_after_close)"
    by (simp add: example_after_close_fields)
  then have "workers (respawn example_after_close 1)
               = workers example_after_close @ [Handle (processUniqueId example_after_close + 1)]"
    using respawn_appends_at_tail [of example_after_close 1] by blast
  then have grow: "workers (respawn example_after_close 1) = workers example_after_close @ [Handle 5]"
    by (simp add: example_after_close_fields)
  show ?thesis
    using h full ws lst sh len gone grow by blast
qed

theorem exit_event_routing_witness:
  "routing_ok example_sticky_cluster
   \<and> Handle 2 \<in> set (workers example_sticky_cluster)
   \<and> needRespawn example_sticky_cluster
   \<and> workers (exit_event example_sticky_cluster 2) = [Handle 1, Handle 3, Handle 4]
   \<and> all_connected (exit_event example_sticky_cluster 2)
   \<and> routing_ok example_cluster
   \<and> Handle 1 \<in> set (workers example_cluster)
   \<and> \<not> needRespawn example_cluster
   \<and> workers (exit_event example_cluster 1) = workers example_cluster
   \<and> \<not> connected (exit_event example_cluster 1) 1"
proof -
  let ?s = example_sticky_cluster
  have h1: "routing_ok ?s"
    by (simp add: routing_ok_def example_sticky_cluster_fields)
  have h2: "Handle 2 \<in> set (workers ?s)"
    by (simp add: example_sticky_cluster_fields)
  have r: "needRespawn ?s"
    by (simp add: example_sticky_cluster_fields)
  note c = exit_event_routing [OF h1 h2]
  have ws: "workers (exit_event ?s 2) = [Handle 1, Handle 3, Handle 4]"
    using c r by (simp add: example_sticky_cluster_fields)
  have "list_all (slot_connected ?s) (remove1 (Handle 2) (workers ?s))"
    by (simp add: example_sticky_cluster_fields)
  then have ac: "all_connected (exit_event ?s 2)"
    using c r by blast
  have g1: "routing_ok example_cluster"
    by (simp add: routing_ok_def example_cluster_fields)
  have g2: "Handle 1 \<in> set (workers example_cluster)"
    by (simp add: example_cluster_fields)
  have nr: "\<not> needRespawn example_cluster"
    by (simp add: example_cluster_fields)
  note d = exit_event_routing [OF g1 g2]
  have stay: "workers (exit_event example_cluster 1) = workers example_cluster"
    and dead: "\<not> connected (exit_event example_cluster 1) 1"
    using d nr by blast+
  show ?thesis
    using h1 h2 r ws ac g1 g2 nr stay dead by blast
qed

theorem on_message_balancing_witness:
  "on_message \<lparr>server_id = 7, connections = 0, emitted = []\<rparr> (JString ''balancing'')
      (Some (example_socket 10 ''10.0.0.7''))
     = (\<lparr>server_id = 7, connections = 1, emitted = [(''connection'', 10)]\<rparr>,
        Some ((example_socket 10 ''10.0.0.7'')\<lparr>server := Some 7\<rparr>))
   \<and> on_message \<lparr>server_id = 7, connections = 0, emitted = []\<rparr> (JObject [(''type'', ''close'')])
        (Some (example_socket 10 ''10.0.0.7''))
     = (\<lparr>server_id = 7, connections = 0, emitted = []\<rparr>, Some (example_socket 10 ''10.0.0.7''))
   \<and> on_message \<lparr>server_id = 7, connections = 0, emitted = []\<rparr> (JString ''balancing'') None
     = (\<lparr>server_id = 7, connections = 0, emitted = []\<rparr>, None)"
proof -
  let ?srv = "\<lparr>server_id = 7, connections = 0, emitted = []\<rparr>"
  let ?so = "example_socket 10 ''10.0.0.7''"
  have a: "on_message ?srv (JString ''balancing'') (Some ?so)
     = (?srv\<lparr>connections := connections ?srv + 1,
              emitted := emitted ?srv @ [(''connection'', sock_id ?so)]\<rparr>,
        Some (?so\<lparr>server := Some (server_id ?srv)\<rparr>))"
    using on_message_balancing [of "JString ''balancing''" "Some ?so" ?so ?srv] by blast
  have "\<not> (JObject [(''type'', ''close'')] = JString ''balancing'' \<and> Some ?so \<noteq> None)"
    by simp
  then have b: "on_message ?srv (JObject [(''type'', ''close'')]) (Some ?so) = (?srv, Some ?so)"
    using on_message_balancing [of "JObject [(''type'', ''close'')]" "Some ?so" ?so ?srv] by blast
  have "\<not> (JString ''balancing'' = JString ''balancing'' \<and> (None :: socket option) \<noteq> None)"
    by simp
  then have c: "on_message ?srv (JString ''balancing'') None = (?srv, None)"
    using on_message_balancing [of "JString ''balancing''" None ?so ?srv] by blast
  show ?thesis
    using a b c by (simp add: example_socket_def)
qed

end
